theory Spec2Isabelle
  imports Complex_Main "HOL-Library.Log_Nat"
begin

section \<open>Data model\<close>

text \<open>
  The analytics components read three kinds of records (\<^verbatim>\<open>types/api.ts\<close>). Only the fields
  the analytics code reads are kept.

  Time: a JavaScript \<^verbatim>\<open>Date\<close> is a number of milliseconds, modelled as an \<open>int\<close>. The
  local time zone is taken to be UTC without daylight saving, so a calendar day is a block
  of \<open>86400000\<close> ms and the day number of an instant \<open>t\<close> is \<open>t div 86400000\<close> (day 0 is
  1970-01-01, a Thursday). A \<^verbatim>\<open>'yyyy-MM-dd'\<close> string is modelled by the day number it
  names, so \<^verbatim>\<open>completion_date\<close> is an \<open>int\<close>, and \<^verbatim>\<open>created_at\<close>, a date-time string that
  the code always reads through \<^verbatim>\<open>new Date(...)\<close>, is the instant in ms.

  Clock: the components read the clock through \<^verbatim>\<open>new Date()\<close>, \<^verbatim>\<open>Date.now()\<close> and
  \<^verbatim>\<open>isToday\<close>, CategoryChart and ProgressSummary more than once in one computation. The
  reading is an argument \<open>now\<close> of each computation, and all the readings of one
  computation are the same instant.

  Numbers: counters, identifiers and instants are integers, far below \<open>2 ^ 53\<close>, where
  the arithmetic of JavaScript is exact. The other numbers (rates, averages, sort values)
  are IEEE 754 binary64 values, modelled in the section on JavaScript numbers: a finite
  value is a rational, and every division, multiplication and subtraction rounds its exact
  result to the nearest binary64 value.
\<close>

record habit =
  id_h :: nat
  name :: string
  category :: "string option"
  created_at :: int

record completion =
  id_c :: nat
  completion_date :: int
  value_c :: int

record streak =
  current_streak :: int
  longest_streak :: int

type_synonym completions = "nat \<rightharpoonup> completion list"

text \<open>\<^verbatim>\<open>Record<number, StreakResponse>\<close>; \<^verbatim>\<open>Object.values\<close> enumerates it, so it is kept
  as an association list (one entry per key).\<close>

type_synonym streaks = "(nat \<times> streak) list"

datatype error = RangeError

section \<open>date-fns\<close>

text \<open>The library functions the components call, on instants in ms.\<close>

definition DAY_MS :: int where
  "DAY_MS = 1000 * 60 * 60 * 24"

definition startOfDay :: "int \<Rightarrow> int" where
  "startOfDay t = (t div DAY_MS) * DAY_MS"

definition subDays :: "int \<Rightarrow> int \<Rightarrow> int" where
  "subDays t n = t - n * DAY_MS"

text \<open>\<^verbatim>\<open>format(t, 'yyyy-MM-dd')\<close>: the day number that the string names.\<close>

definition format_ymd :: "int \<Rightarrow> int" where
  "format_ymd t = t div DAY_MS"

text \<open>\<^verbatim>\<open>new Date('yyyy-MM-dd')\<close>: midnight of that day.\<close>

definition parse_ymd :: "int \<Rightarrow> int" where
  "parse_ymd d = d * DAY_MS"

text \<open>\<^verbatim>\<open>getDay\<close>: 0 is Sunday; day 0 (1970-01-01) is a Thursday.\<close>

definition getDay :: "int \<Rightarrow> int" where
  "getDay t = (t div DAY_MS + 4) mod 7"

text \<open>\<^verbatim>\<open>startOfWeek\<close> and \<^verbatim>\<open>endOfWeek\<close> with the default \<^verbatim>\<open>weekStartsOn: 0\<close> (Sunday).\<close>

definition startOfWeek :: "int \<Rightarrow> int" where
  "startOfWeek t = startOfDay t - getDay t * DAY_MS"

definition endOfWeek :: "int \<Rightarrow> int" where
  "endOfWeek t = startOfWeek t + 7 * DAY_MS - 1"

text \<open>\<^verbatim>\<open>eachDayOfInterval\<close>: the start of every day from the day of \<open>start\<close> to the day of
  \<open>end\<close>. An interval whose start is after its end is refused (date-fns 2 throws
  \<^verbatim>\<open>RangeError\<close>).\<close>

definition eachDayOfInterval :: "int \<Rightarrow> int \<Rightarrow> error + int list" where
  "eachDayOfInterval start end' =
     (if start > end' then Inl RangeError
      else Inr (map (\<lambda>d. d * DAY_MS) [start div DAY_MS .. end' div DAY_MS]))"

text \<open>\<^verbatim>\<open>eachWeekOfInterval\<close>: the start of every week from the week of \<open>start\<close> to the week
  of \<open>end\<close>.\<close>

definition eachWeekOfInterval :: "int \<Rightarrow> int \<Rightarrow> error + int list" where
  "eachWeekOfInterval start end' =
     (if start > end' then Inl RangeError
      else Inr (map (\<lambda>k. startOfWeek start + k * (7 * DAY_MS))
                  [0 .. (startOfWeek end' - startOfWeek start) div (7 * DAY_MS)]))"

text \<open>\<^verbatim>\<open>isToday(t)\<close> at the instant \<open>now\<close>.\<close>

definition isToday :: "int \<Rightarrow> int \<Rightarrow> bool" where
  "isToday now t = (startOfDay t = startOfDay now)"

section \<open>JavaScript numbers\<close>

text \<open>A finite Number is a rational. The result of an arithmetic operation is the exact
  result rounded to the nearest value \<open>m * 2 ^ e\<close> with a 53-bit \<open>m\<close>, ties going to the even
  \<open>m\<close> (round-to-nearest-even of binary64). Infinities, NaN, overflow and subnormal numbers
  are left out: the operands are counts, instants and percentages.\<close>

definition round_half_even :: "rat \<Rightarrow> int" where
  "round_half_even x =
     (let f = \<lfloor>x\<rfloor>; d = x - of_int f
      in if d < 1 / 2 then f
         else if 1 / 2 < d then f + 1
         else if even f then f else f + 1)"

text \<open>The binary exponent of a positive rational \<open>p / q\<close>, that is \<open>\<lfloor>log\<^sub>2 (p / q)\<rfloor>\<close>: the
  difference of the bit lengths or one less.\<close>

definition exponentOf :: "rat \<Rightarrow> int" where
  "exponentOf x =
     (let (p, q) = quotient_of x;
          k = bitlen p - bitlen q
      in if 2 powi k \<le> x then k else k - 1)"

definition fl64pos :: "rat \<Rightarrow> rat" where
  "fl64pos x =
     (let e = exponentOf x - 52
      in of_int (round_half_even (x / 2 powi e)) * 2 powi e)"

definition fl64 :: "rat \<Rightarrow> rat" where
  "fl64 x = (if x = 0 then 0 else if x < 0 then - fl64pos (- x) else fl64pos x)"

text \<open>The operators \<^verbatim>\<open>/\<close>, \<^verbatim>\<open>*\<close> and \<^verbatim>\<open>-\<close> on Numbers. No division of the components has
  a zero divisor: each is guarded by a test \<^verbatim>\<open>> 0\<close> or divides by a constant.\<close>

definition fdiv :: "rat \<Rightarrow> rat \<Rightarrow> rat" where
  "fdiv x y = fl64 (x / y)"

definition fmul :: "rat \<Rightarrow> rat \<Rightarrow> rat" where
  "fmul x y = fl64 (x * y)"

definition fsub :: "rat \<Rightarrow> rat \<Rightarrow> rat" where
  "fsub x y = fl64 (x - y)"

text \<open>\<^verbatim>\<open>Math.round\<close>: to the nearest integer, halves upwards; \<^verbatim>\<open>Math.floor\<close>. Both are exact
  on the Number they are given.\<close>

definition Math_round :: "rat \<Rightarrow> int" where
  "Math_round x = \<lfloor>x + 1 / 2\<rfloor>"

definition Math_floor :: "rat \<Rightarrow> int" where
  "Math_floor x = \<lfloor>x\<rfloor>"

section \<open>StreakChart\<close>

text \<open>\<^verbatim>\<open>completions[habit.id] || []\<close>\<close>

definition completionsOf :: "completions \<Rightarrow> habit \<Rightarrow> completion list" where
  "completionsOf cs h = (case cs (id_h h) of None \<Rightarrow> [] | Some l \<Rightarrow> l)"

text \<open>\<^verbatim>\<open>habitCompletions.some(c => c.completion_date === dayStr)\<close>\<close>

definition hasCompletion :: "completion list \<Rightarrow> int \<Rightarrow> bool" where
  "hasCompletion habitCompletions dayStr = list_ex (\<lambda>c. completion_date c = dayStr) habitCompletions"

text \<open>The \<^verbatim>\<open>while\<close> loop of StreakChart (CategoryChart.tsx, lines 230-242): \<open>currentDate\<close>
  is an instant, compared with the instant \<^verbatim>\<open>new Date(habit.created_at)\<close>.\<close>

function streakLoop :: "habit \<Rightarrow> completion list \<Rightarrow> int \<Rightarrow> nat \<Rightarrow> nat" where
  "streakLoop h habitCompletions currentDate streak =
     (if currentDate \<ge> created_at h then
        (if hasCompletion habitCompletions (format_ymd currentDate)
         then streakLoop h habitCompletions (subDays currentDate 1) (streak + 1)
         else streak)
      else streak)"
  by pat_completeness auto
termination
  by (relation "measure (\<lambda>(h, cs, cur, s). nat (cur - created_at h + 1))")
     (auto simp: subDays_def DAY_MS_def)

declare streakLoop.simps [simp del]

text \<open>Lines 226-244: the streak of one habit up to the data point \<open>date\<close>.\<close>

definition streakUpTo :: "habit \<Rightarrow> completion list \<Rightarrow> int \<Rightarrow> nat" where
  "streakUpTo h habitCompletions date = streakLoop h habitCompletions date 0"

record streakPoint =
  sp_date :: int
  sp_series :: "string \<rightharpoonup> nat"

definition habitsToShow :: "habit list \<Rightarrow> nat list option \<Rightarrow> habit list" where
  "habitsToShow habits selectedHabitIds =
     (case selectedHabitIds of
        Some ids \<Rightarrow> filter (\<lambda>h. id_h h \<in> set ids) habits
      | None \<Rightarrow> take 5 habits)"

definition streakDataPoint :: "habit list \<Rightarrow> completions \<Rightarrow> int \<Rightarrow> streakPoint" where
  "streakDataPoint hs cs date =
     \<lparr> sp_date = date,
       sp_series = foldl (\<lambda>m h. m(name h \<mapsto> streakUpTo h (completionsOf cs h) date)) Map.empty hs \<rparr>"

definition streakChartData ::
  "habit list \<Rightarrow> completions \<Rightarrow> nat list option \<Rightarrow> int \<Rightarrow> int \<Rightarrow> error + streakPoint list" where
  "streakChartData habits cs selectedHabitIds days now =
     (let endDate = now;
          startDate = subDays endDate (days - 1)
      in case eachDayOfInterval startDate endDate of
           Inl e \<Rightarrow> Inl e
         | Inr dateRange \<Rightarrow>
             Inr (map (streakDataPoint (habitsToShow habits selectedHabitIds) cs) dateRange))"

section \<open>CompletionChart\<close>

datatype period = Daily | Weekly

text \<open>One entry of \<^verbatim>\<open>chartData\<close>. The label \<^verbatim>\<open>format(date, 'MMM dd')\<close> is kept as the
  instant \<open>date\<close> it is printed from.\<close>

record chartDataPoint =
  cp_period :: int
  cp_completions :: nat
  cp_totalHabits :: nat
  cp_completionRate :: int

text \<open>\<^verbatim>\<open>habits.forEach(habit => { ... if (hasCompletion) periodCompletions++ })\<close> for one
  day string, continuing the counter \<open>periodCompletions\<close>.\<close>

definition countHabitsOn :: "habit list \<Rightarrow> completions \<Rightarrow> int \<Rightarrow> nat \<Rightarrow> nat" where
  "countHabitsOn habits cs dayStr periodCompletions =
     foldl (\<lambda>n h. if hasCompletion (completionsOf cs h) dayStr then n + 1 else n)
       periodCompletions habits"

text \<open>Lines 44-73: the counter of one interval.\<close>

definition periodCompletionsOf :: "habit list \<Rightarrow> completions \<Rightarrow> period \<Rightarrow> int \<Rightarrow> error + nat" where
  "periodCompletionsOf habits cs p date =
     (case p of
        Weekly \<Rightarrow>
          (case eachDayOfInterval (startOfWeek date) (endOfWeek date) of
             Inl e \<Rightarrow> Inl e
           | Inr weekDays \<Rightarrow>
               Inr (foldl (\<lambda>n day. countHabitsOn habits cs (format_ymd day) n) 0 weekDays))
      | Daily \<Rightarrow> Inr (countHabitsOn habits cs (format_ymd date) 0))"

text \<open>Line 75.\<close>

definition bucketRate :: "nat \<Rightarrow> nat \<Rightarrow> rat" where
  "bucketRate periodCompletions totalHabits =
     (if totalHabits > 0
      then fmul (fdiv (of_nat periodCompletions) (of_nat totalHabits)) 100
      else 0)"

definition completionDataPoint ::
  "habit list \<Rightarrow> completions \<Rightarrow> period \<Rightarrow> int \<Rightarrow> error + chartDataPoint" where
  "completionDataPoint habits cs p date =
     (let totalHabits = length habits
      in case periodCompletionsOf habits cs p date of
           Inl e \<Rightarrow> Inl e
         | Inr periodCompletions \<Rightarrow>
             Inr \<lparr> cp_period = date,
                   cp_completions = periodCompletions,
                   cp_totalHabits = totalHabits,
                   cp_completionRate = Math_round (bucketRate periodCompletions totalHabits) \<rparr>)"

text \<open>\<^verbatim>\<open>intervals.map(...)\<close> where the callback may throw.\<close>

fun mapE :: "('a \<Rightarrow> error + 'b) \<Rightarrow> 'a list \<Rightarrow> error + 'b list" where
  "mapE f [] = Inr []"
| "mapE f (x # xs) =
     (case f x of
        Inl e \<Rightarrow> Inl e
      | Inr y \<Rightarrow> (case mapE f xs of Inl e \<Rightarrow> Inl e | Inr ys \<Rightarrow> Inr (y # ys)))"

text \<open>Lines 27-41.\<close>

definition intervalsOf :: "period \<Rightarrow> int \<Rightarrow> int \<Rightarrow> error + int list" where
  "intervalsOf p days now =
     (let endDate = now;
          startDate = subDays endDate (days - 1)
      in case p of
           Weekly \<Rightarrow> eachWeekOfInterval (startOfWeek startDate) (endOfWeek endDate)
         | Daily \<Rightarrow> eachDayOfInterval startDate endDate)"

text \<open>Lines 26-86: \<^verbatim>\<open>chartData\<close> of CompletionChart, with the clock reading \<open>now\<close> of
  \<^verbatim>\<open>new Date()\<close> as an argument.\<close>

definition completionChartData ::
  "habit list \<Rightarrow> completions \<Rightarrow> period \<Rightarrow> int \<Rightarrow> int \<Rightarrow> error + chartDataPoint list" where
  "completionChartData habits cs p days now =
     (case intervalsOf p days now of
        Inl e \<Rightarrow> Inl e
      | Inr intervals \<Rightarrow> mapE (completionDataPoint habits cs p) intervals)"

section \<open>CategoryChart\<close>

datatype metric = Count | CompletionRate | AverageStreak

record categoryData =
  cd_category :: string
  cd_value :: rat
  cd_count :: nat
  cd_completionRate :: int
  cd_averageStreak :: rat

text \<open>\<^verbatim>\<open>habit.category || 'Uncategorized'\<close>: a missing and an empty category are falsy.\<close>

definition categoryOf :: "habit \<Rightarrow> string" where
  "categoryOf h =
     (case category h of
        None \<Rightarrow> ''Uncategorized''
      | Some c \<Rightarrow> if c = [] then ''Uncategorized'' else c)"

text \<open>The \<^verbatim>\<open>Map<string, HabitResponse[]>\<close>, in insertion order: \<open>pushHabit\<close> is lines 32-35
  (create the entry at the end when the key is new, then push the habit to its array).\<close>

fun pushHabit :: "string \<Rightarrow> habit \<Rightarrow> (string \<times> habit list) list \<Rightarrow> (string \<times> habit list) list" where
  "pushHabit c h [] = [(c, [h])]"
| "pushHabit c h ((k, g) # m) =
     (if k = c then (k, g @ [h]) # m else (k, g) # pushHabit c h m)"

definition categoryMap :: "habit list \<Rightarrow> (string \<times> habit list) list" where
  "categoryMap habits = foldl (\<lambda>m h. pushHabit (categoryOf h) h m) [] habits"

text \<open>Lines 51-53, with the clock reading \<open>now\<close> of \<^verbatim>\<open>Date.now()\<close>.\<close>

definition daysSinceCreation :: "int \<Rightarrow> habit \<Rightarrow> int" where
  "daysSinceCreation now h =
     Math_floor (fdiv (of_int (now - created_at h)) (of_int DAY_MS)) + 1"

text \<open>Lines 43-55: the two sums of one category.\<close>

definition totalCompletionsOf :: "completions \<Rightarrow> habit list \<Rightarrow> int" where
  "totalCompletionsOf cs categoryHabits =
     foldl (\<lambda>n h. n + int (length (completionsOf cs h))) 0 categoryHabits"

definition totalPossibleCompletionsOf :: "int \<Rightarrow> habit list \<Rightarrow> int" where
  "totalPossibleCompletionsOf now categoryHabits =
     foldl (\<lambda>n h. n + daysSinceCreation now h) 0 categoryHabits"

text \<open>Lines 57-59.\<close>

definition categoryCompletionRate :: "completions \<Rightarrow> int \<Rightarrow> habit list \<Rightarrow> rat" where
  "categoryCompletionRate cs now categoryHabits =
     (let totalCompletions = totalCompletionsOf cs categoryHabits;
          totalPossibleCompletions = totalPossibleCompletionsOf now categoryHabits
      in if totalPossibleCompletions > 0
         then fmul (fdiv (of_int totalCompletions) (of_int totalPossibleCompletions)) 100
         else 0)"

text \<open>\<^verbatim>\<open>streaks[habit.id]?.current_streak || 0\<close>\<close>

definition currentStreakOf :: "streaks \<Rightarrow> habit \<Rightarrow> int" where
  "currentStreakOf ss h = (case map_of ss (id_h h) of None \<Rightarrow> 0 | Some s \<Rightarrow> current_streak s)"

text \<open>Lines 62-66.\<close>

definition categoryAverageStreak :: "streaks \<Rightarrow> habit list \<Rightarrow> rat" where
  "categoryAverageStreak ss categoryHabits =
     (let count = length categoryHabits;
          totalStreak = foldl (\<lambda>sum h. sum + currentStreakOf ss h) 0 categoryHabits
      in if count > 0 then fdiv (of_int totalStreak) (of_nat count) else 0)"

text \<open>Lines 39-90: the entry of one category.\<close>

definition categoryEntry ::
  "completions \<Rightarrow> streaks \<Rightarrow> metric \<Rightarrow> int \<Rightarrow> string \<times> habit list \<Rightarrow> categoryData" where
  "categoryEntry cs ss m now entry =
     (let categoryHabits = snd entry;
          count = length categoryHabits;
          completionRate = categoryCompletionRate cs now categoryHabits;
          averageStreak = categoryAverageStreak ss categoryHabits;
          v = (case m of
                 CompletionRate \<Rightarrow> of_int (Math_round completionRate)
               | AverageStreak \<Rightarrow> fdiv (of_int (Math_round (fmul averageStreak 10))) 10
               | Count \<Rightarrow> of_nat count)
      in \<lparr> cd_category = fst entry,
           cd_value = v,
           cd_count = count,
           cd_completionRate = Math_round completionRate,
           cd_averageStreak = fdiv (of_int (Math_round (fmul averageStreak 10))) 10 \<rparr>)"

text \<open>\<^verbatim>\<open>Array.prototype.sort(compare)\<close> is a stable sort: insertion by the comparator, an
  element going before the first one it does not compare greater than.\<close>

fun insertBy :: "('a \<Rightarrow> 'a \<Rightarrow> rat) \<Rightarrow> 'a \<Rightarrow> 'a list \<Rightarrow> 'a list" where
  "insertBy compare x [] = [x]"
| "insertBy compare x (y # ys) =
     (if compare x y \<le> 0 then x # y # ys else y # insertBy compare x ys)"

definition Array_sort :: "('a \<Rightarrow> 'a \<Rightarrow> rat) \<Rightarrow> 'a list \<Rightarrow> 'a list" where
  "Array_sort compare xs = foldr (insertBy compare) xs []"

text \<open>Lines 26-94: \<^verbatim>\<open>categoryData\<close> of CategoryChart; line 93 is the sort.\<close>

definition categoryChartData ::
  "habit list \<Rightarrow> completions \<Rightarrow> streaks \<Rightarrow> metric \<Rightarrow> int \<Rightarrow> categoryData list" where
  "categoryChartData habits cs ss m now =
     Array_sort (\<lambda>a b. fsub (cd_value b) (cd_value a))
       (map (categoryEntry cs ss m now) (categoryMap habits))"

section \<open>ProgressSummary\<close>

record summaryStats =
  totalHabits :: nat
  activeHabits :: nat
  todayCompletions :: nat
  yesterdayCompletions :: nat
  weekCompletions :: nat
  totalCompletions :: nat
  longestStreak :: int
  averageStreak :: rat
  completionRate :: int
  weeklyCompletionRate :: int

text \<open>The four \<^verbatim>\<open>let\<close> counters of lines 40-43, threaded through the two nested
  \<^verbatim>\<open>forEach\<close> loops.\<close>

record counters =
  c_today :: nat
  c_yesterday :: nat
  c_week :: nat
  c_total :: nat

text \<open>Lines 52-62: the body of the inner loop. \<^verbatim>\<open>isToday\<close> reads the clock itself; every
  clock reading of one computation is the same instant \<open>now\<close>.\<close>

definition countCompletion :: "int \<Rightarrow> int \<Rightarrow> counters \<Rightarrow> completion \<Rightarrow> counters" where
  "countCompletion now weekAgo k c =
     (let completionDate = parse_ymd (completion_date c);
          k1 = (if isToday now completionDate then k\<lparr>c_today := c_today k + 1\<rparr> else k)
      in if completionDate \<ge> weekAgo then k1\<lparr>c_week := c_week k1 + 1\<rparr> else k1)"

text \<open>Lines 48-63: the body of the outer loop.\<close>

definition countHabit :: "int \<Rightarrow> int \<Rightarrow> completions \<Rightarrow> counters \<Rightarrow> habit \<Rightarrow> counters" where
  "countHabit now weekAgo cs k h =
     (let habitCompletions = completionsOf cs h
      in foldl (countCompletion now weekAgo)
           (k\<lparr>c_total := c_total k + length habitCompletions\<rparr>) habitCompletions)"

definition countAll :: "habit list \<Rightarrow> completions \<Rightarrow> int \<Rightarrow> counters" where
  "countAll habits cs now =
     (let today = now;
          weekAgo = subDays today 7
      in foldl (countHabit now weekAgo cs)
           \<lparr> c_today = 0, c_yesterday = 0, c_week = 0, c_total = 0 \<rparr> habits)"

text \<open>Lines 77-82; \<^verbatim>\<open>Math.min(...)\<close> of a non-empty array is a fold of \<open>min\<close>.\<close>

definition daysSinceOldestHabit :: "habit list \<Rightarrow> int \<Rightarrow> int" where
  "daysSinceOldestHabit habits now =
     (case map created_at habits of
        [] \<Rightarrow> 1
      | t # ts \<Rightarrow>
          max 1 (Math_floor (fdiv (of_int (now - foldl min t ts)) (of_int DAY_MS))))"

text \<open>Lines 84-92.\<close>

definition overallRate :: "nat \<Rightarrow> nat \<Rightarrow> int \<Rightarrow> rat" where
  "overallRate nTotal nHabits nDays =
     (let totalPossibleCompletions = int nHabits * nDays
      in if totalPossibleCompletions > 0
         then fmul (fdiv (of_nat nTotal) (of_int totalPossibleCompletions)) 100
         else 0)"

definition weeklyRate :: "nat \<Rightarrow> nat \<Rightarrow> rat" where
  "weeklyRate nWeek nHabits =
     (let weeklyPossibleCompletions = nHabits * 7
      in if weeklyPossibleCompletions > 0
         then fmul (fdiv (of_nat nWeek) (of_nat weeklyPossibleCompletions)) 100
         else 0)"

text \<open>Lines 30-106: \<^verbatim>\<open>stats\<close>.\<close>

definition stats :: "habit list \<Rightarrow> completions \<Rightarrow> streaks \<Rightarrow> int \<Rightarrow> summaryStats" where
  "stats habits cs ss now =
     (let nHabits = length habits;
          active = length (filter (\<lambda>h. case map_of ss (id_h h) of
                                          None \<Rightarrow> False
                                        | Some s \<Rightarrow> current_streak s > 0) habits);
          k = countAll habits cs now;
          streakValues = map snd ss;
          longest = foldl (\<lambda>mx s. max mx (longest_streak s)) 0 streakValues;
          totalCurrentStreak = foldl (\<lambda>sum s. sum + current_streak s) 0 streakValues;
          average = (if nHabits > 0
                     then fdiv (of_int totalCurrentStreak) (of_nat nHabits) else 0)
      in \<lparr> totalHabits = nHabits,
           activeHabits = active,
           todayCompletions = c_today k,
           yesterdayCompletions = c_yesterday k,
           weekCompletions = c_week k,
           totalCompletions = c_total k,
           longestStreak = longest,
           averageStreak = fdiv (of_int (Math_round (fmul average 10))) 10,
           completionRate =
             Math_round (overallRate (c_total k) nHabits (daysSinceOldestHabit habits now)),
           weeklyCompletionRate = Math_round (weeklyRate (c_week k) nHabits) \<rparr>)"

text \<open>Lines 204-207: the sign prefix and the number shown above "vs Yesterday".\<close>

definition vsYesterday :: "summaryStats \<Rightarrow> string \<times> int" where
  "vsYesterday st =
     (if todayCompletions st > yesterdayCompletions st then ''+'' else [],
      int (todayCompletions st) - int (yesterdayCompletions st))"

section \<open>Longest streak\<close>

text \<open>Modelled from the spec: the Completion Index of section 4.1. The streak service that
  computes \<^verbatim>\<open>longest_streak\<close> belongs to the backend, which is not among the sources; the
  front end only reads the stored number. The index is the deduplicated set of completion
  dates, here in ascending order.\<close>

definition completionIndex :: "completion list \<Rightarrow> int list" where
  "completionIndex habitCompletions = sort (remdups (map completion_date habitCompletions))"

text \<open>Modelled from the spec: step 1 of section 4.2, the scan of the ascending dates. A run
  continues while the next date is the previous one plus a day; \<open>best\<close> is the longest run
  seen so far.\<close>

fun scanRuns :: "int \<Rightarrow> nat \<Rightarrow> nat \<Rightarrow> int list \<Rightarrow> nat" where
  "scanRuns prev run best [] = max best run"
| "scanRuns prev run best (d # ds) =
     (if d = prev + 1 then scanRuns d (run + 1) best ds
      else scanRuns d 1 (max best run) ds)"

text \<open>Modelled from the spec: the longest streak of section 4.2; an empty index gives 0.\<close>

definition longestStreakOf :: "completion list \<Rightarrow> nat" where
  "longestStreakOf habitCompletions =
     (case completionIndex habitCompletions of
        [] \<Rightarrow> 0
      | d # ds \<Rightarrow> scanRuns d 1 0 ds)"

section \<open>Auxiliary notions and sample data\<close>

text \<open>The first day whose midnight is not before the creation instant of the habit: the
  last day that the loop of StreakChart can reach.\<close>

definition firstCountedDay :: "habit \<Rightarrow> int" where
  "firstCountedDay h = - ((- created_at h) div DAY_MS)"

text \<open>Sample records: a habit created at the instant \<open>t\<close>, a completion on day \<open>d\<close>.
  Day 20089 is 2025-01-01, a Wednesday.\<close>

definition mkHabit :: "int \<Rightarrow> habit" where
  "mkHabit t = \<lparr> id_h = 1, name = ''Run'', category = None, created_at = t \<rparr>"

definition mkCompletion :: "int \<Rightarrow> completion" where
  "mkCompletion d = \<lparr> id_c = 1, completion_date = d, value_c = 1 \<rparr>"

text \<open>The number of the week (Sunday to Saturday) that contains the instant.\<close>

definition weekNo :: "int \<Rightarrow> int" where
  "weekNo t = (format_ymd t + 4) div 7"

text \<open>The number of habits with a completion on day \<open>d\<close>.\<close>

definition habitsDoneOn :: "habit list \<Rightarrow> completions \<Rightarrow> int \<Rightarrow> nat" where
  "habitsDoneOn habits cs d = length (filter (\<lambda>h. hasCompletion (completionsOf cs h) d) habits)"

text \<open>The distinct elements of a list, in the order of their first occurrence.\<close>

definition firstOccurrences :: "'a list \<Rightarrow> 'a list" where
  "firstOccurrences xs = rev (remdups (rev xs))"

text \<open>Sample habit with an id and a category.\<close>

definition mkHabitIn :: "nat \<Rightarrow> string \<Rightarrow> habit" where
  "mkHabitIn i c = \<lparr> id_h = i, name = ''Habit'', category = Some c, created_at = 20089 * DAY_MS \<rparr>"

section \<open>Current and longest streak\<close>

lemma ceil_div_le_iff:
  fixes c d m :: int
  assumes "0 < m"
  shows "(- ((- c) div m) \<le> d) = (c \<le> d * m)"
proof -
  have "(- ((- c) div m) \<le> d) = (\<lceil>real_of_int c / real_of_int m\<rceil> \<le> d)"
    by (simp add: ceiling_divide_eq_div)
  also have "\<dots> = (real_of_int c / real_of_int m \<le> real_of_int d)"
    by (simp add: ceiling_le_iff)
  also have "\<dots> = (real_of_int c \<le> real_of_int d * real_of_int m)"
    using assms by (simp add: pos_divide_le_eq)
  also have "\<dots> = (c \<le> d * m)"
    by (metis of_int_le_iff of_int_mult)
  finally show ?thesis .
qed

lemma floor_div_ge_iff:
  fixes c d m :: int
  assumes "0 < m"
  shows "(d \<le> c div m) = (d * m \<le> c)"
proof -
  have "(d \<le> c div m) = (d \<le> \<lfloor>real_of_int c / real_of_int m\<rfloor>)"
    by (simp add: floor_divide_of_int_eq)
  also have "\<dots> = (real_of_int d \<le> real_of_int c / real_of_int m)"
    by (simp add: le_floor_iff)
  also have "\<dots> = (real_of_int d * real_of_int m \<le> real_of_int c)"
    using assms by (simp add: pos_le_divide_eq)
  also have "\<dots> = (d * m \<le> c)"
    by (metis of_int_le_iff of_int_mult)
  finally show ?thesis .
qed

lemma DAY_MS_pos: "0 < DAY_MS" by (simp add: DAY_MS_def)

lemma midnight_ge_created: "(created_at h \<le> d * DAY_MS) = (firstCountedDay h \<le> d)"
  unfolding firstCountedDay_def by (simp add: ceil_div_le_iff [OF DAY_MS_pos])

lemma firstCountedDay_cases:
  "firstCountedDay h = (if created_at h mod DAY_MS = 0 then created_at h div DAY_MS
                        else created_at h div DAY_MS + 1)"
  unfolding firstCountedDay_def using DAY_MS_pos
  by (auto simp: zdiv_zminus1_eq_if)

lemma streakLoop_stop:
  "currentDate < created_at h \<or> \<not> hasCompletion cs (format_ymd currentDate)
   \<Longrightarrow> streakLoop h cs currentDate s = s"
  by (subst streakLoop.simps) auto

lemma streakLoop_step:
  "created_at h \<le> currentDate \<Longrightarrow> hasCompletion cs (format_ymd currentDate)
   \<Longrightarrow> streakLoop h cs currentDate s = streakLoop h cs (subDays currentDate 1) (s + 1)"
  by (subst streakLoop.simps) simp

lemma format_ymd_midnight: "format_ymd (d * DAY_MS) = d"
  by (simp add: format_ymd_def DAY_MS_def)

lemma subDays_midnight: "subDays (d * DAY_MS) 1 = (d - 1) * DAY_MS"
  by (simp add: subDays_def algebra_simps)

lemma streakLoop_full_history:
  assumes "\<forall>k. firstCountedDay h \<le> k \<and> k \<le> d \<longrightarrow> hasCompletion cs k"
  shows "streakLoop h cs (d * DAY_MS) s = s + nat (d - firstCountedDay h + 1)"
  using assms
proof (induction "nat (d - firstCountedDay h + 1)" arbitrary: d s)
  case 0
  then have "d * DAY_MS < created_at h"
    using midnight_ge_created [of h d] by linarith
  then show ?case using 0 by (simp add: streakLoop_stop)
next
  case (Suc n)
  then have ge: "firstCountedDay h \<le> d" by linarith
  then have c: "created_at h \<le> d * DAY_MS" by (simp add: midnight_ge_created)
  have hc: "hasCompletion cs (format_ymd (d * DAY_MS))"
    using Suc.prems ge by (simp add: format_ymd_midnight)
  have n: "n = nat ((d - 1) - firstCountedDay h + 1)" using Suc.hyps(2) by linarith
  have "streakLoop h cs ((d - 1) * DAY_MS) (s + 1) = (s + 1) + nat ((d - 1) - firstCountedDay h + 1)"
    using Suc.hyps(1) [OF n] Suc.prems by simp
  moreover have "nat (d - firstCountedDay h + 1) = 1 + nat ((d - 1) - firstCountedDay h + 1)"
    using ge by linarith
  ultimately show ?case
    by (simp add: streakLoop_step [OF c hc] subDays_midnight)
qed

lemma streakLoop_cong:
  assumes "\<And>d. hasCompletion cs d = hasCompletion cs' d"
  shows "streakLoop h cs cur s = streakLoop h cs' cur s"
proof (induction "nat (cur - created_at h + 1)" arbitrary: cur s rule: less_induct)
  case less
  show ?case
  proof (cases "created_at h \<le> cur \<and> hasCompletion cs (format_ymd cur)")
    case True
    then have c: "created_at h \<le> cur" and hc: "hasCompletion cs (format_ymd cur)"
      and hc': "hasCompletion cs' (format_ymd cur)"
      using assms by auto
    have "nat (subDays cur 1 - created_at h + 1) < nat (cur - created_at h + 1)"
      using c by (simp add: subDays_def DAY_MS_def)
    then have "streakLoop h cs (subDays cur 1) (s + 1) = streakLoop h cs' (subDays cur 1) (s + 1)"
      by (rule less)
    then show ?thesis
      by (simp add: streakLoop_step [OF c hc] streakLoop_step [OF c hc'])
  next
    case False
    then have "cur < created_at h \<or> \<not> hasCompletion cs (format_ymd cur)" by auto
    moreover from this have "cur < created_at h \<or> \<not> hasCompletion cs' (format_ymd cur)"
      using assms by auto
    ultimately show ?thesis by (simp add: streakLoop_stop)
  qed
qed

lemma hasCompletion_insert_dup:
  assumes "hasCompletion (cs1 @ cs2) (completion_date c)"
  shows "hasCompletion (cs1 @ c # cs2) d = hasCompletion (cs1 @ cs2) d"
  using assms by (auto simp: hasCompletion_def list_ex_iff)

lemma streakUpTo_full_history:
  assumes "\<forall>k. format_ymd (created_at h) \<le> k \<and> k \<le> d \<longrightarrow> hasCompletion cs k"
    and "format_ymd (created_at h) \<le> d"
  shows "streakUpTo h cs (parse_ymd d) =
           (if created_at h mod DAY_MS = 0 then nat (d - format_ymd (created_at h) + 1)
            else nat (d - format_ymd (created_at h)))"
proof -
  have le: "format_ymd (created_at h) \<le> firstCountedDay h"
    by (simp add: firstCountedDay_cases format_ymd_def)
  have "\<forall>k. firstCountedDay h \<le> k \<and> k \<le> d \<longrightarrow> hasCompletion cs k"
    using assms(1) le by auto
  then have "streakLoop h cs (d * DAY_MS) 0 = 0 + nat (d - firstCountedDay h + 1)"
    by (rule streakLoop_full_history)
  then show ?thesis
    by (simp add: streakUpTo_def parse_ymd_def firstCountedDay_cases format_ymd_def)
qed

text \<open>Claim C1. A habit with a completion on every day from its creation date through the
  as-of date should have a current streak of \<open>asOf - created + 1\<close> days. The loop compares
  the midnight of each day with the creation instant, so the creation day itself is only
  counted when the habit was created exactly at midnight (\<open>streakUpTo_full_history\<close>). Here
  the habit is created on 2025-01-01 at 10:00 and completed on 01-01, 01-02 and 01-03: on
  01-03 the loop gives 2, and the claim says 3.\<close>

theorem C1_streak_drops_creation_day:
  "format_ymd (created_at (mkHabit (20089 * DAY_MS + 36000000))) = 20089
   \<and> hasCompletion (map mkCompletion [20089, 20090, 20091]) 20089
   \<and> hasCompletion (map mkCompletion [20089, 20090, 20091]) 20090
   \<and> hasCompletion (map mkCompletion [20089, 20090, 20091]) 20091
   \<and> streakUpTo (mkHabit (20089 * DAY_MS + 36000000))
        (map mkCompletion [20089, 20090, 20091]) (parse_ymd 20091) = 2"
  by (simp add: streakUpTo_def streakLoop.simps mkHabit_def mkCompletion_def parse_ymd_def
      DAY_MS_def hasCompletion_def format_ymd_def subDays_def)

text \<open>Claim C2, as stated, fails. A habit created on 2025-01-01 at midnight and completed on
  that day only: as of 01-02, which has no completion, the day before has one and its own
  streak is 1, yet the loop gives 0.\<close>

theorem C2_no_grace_day_counterexample:
  "\<not> hasCompletion [mkCompletion 20089] (format_ymd (parse_ymd 20090))
   \<and> hasCompletion [mkCompletion 20089] (format_ymd (subDays (parse_ymd 20090) 1))
   \<and> streakUpTo (mkHabit (20089 * DAY_MS)) [mkCompletion 20089] (subDays (parse_ymd 20090) 1) = 1
   \<and> streakUpTo (mkHabit (20089 * DAY_MS)) [mkCompletion 20089] (parse_ymd 20090) = 0"
  by (simp add: streakUpTo_def streakLoop.simps mkHabit_def mkCompletion_def parse_ymd_def
      DAY_MS_def hasCompletion_def format_ymd_def subDays_def)

text \<open>Claim C2, amended. When the as-of date has no completion the current streak is 0, whether
  or not the day before has one: the loop stops at the first day without a completion, and
  the as-of date is the first day it looks at. There is no grace day.\<close>

theorem C2_streak_zero_without_completion_on_date:
  "\<not> hasCompletion habitCompletions (format_ymd date)
   \<Longrightarrow> streakUpTo h habitCompletions date = 0"
  by (simp add: streakUpTo_def streakLoop_stop)

theorem C2_streak_zero_without_completion_on_date_witness:
  "\<not> hasCompletion [mkCompletion 20089] (format_ymd (parse_ymd 20090))
   \<and> streakUpTo (mkHabit (20089 * DAY_MS)) [mkCompletion 20089] (parse_ymd 20090) = 0"
proof -
  have n: "\<not> hasCompletion [mkCompletion 20089] (format_ymd (parse_ymd 20090))"
    by (simp add: hasCompletion_def mkCompletion_def format_ymd_def parse_ymd_def DAY_MS_def)
  show ?thesis
    using n C2_streak_zero_without_completion_on_date [OF n] by simp
qed

lemma completionIndex_insert_dup:
  assumes "hasCompletion (cs1 @ cs2) (completion_date c)"
  shows "completionIndex (cs1 @ c # cs2) = completionIndex (cs1 @ cs2)"
proof -
  from assms obtain c' where "c' \<in> set (cs1 @ cs2)" "completion_date c' = completion_date c"
    unfolding hasCompletion_def list_ex_iff by blast
  then have "completion_date c \<in> completion_date ` set (cs1 @ cs2)"
    by (metis imageI)
  then have "insert (completion_date c) (completion_date ` set (cs1 @ cs2))
             = completion_date ` set (cs1 @ cs2)"
    by (rule insert_absorb)
  then have "set (map completion_date (cs1 @ c # cs2)) = set (map completion_date (cs1 @ cs2))"
    by (simp add: image_Un)
  then have "set (completionIndex (cs1 @ c # cs2)) = set (completionIndex (cs1 @ cs2))"
    by (simp add: completionIndex_def)
  moreover have "sorted (completionIndex (cs1 @ c # cs2))" "distinct (completionIndex (cs1 @ c # cs2))"
    "sorted (completionIndex (cs1 @ cs2))" "distinct (completionIndex (cs1 @ cs2))"
    by (simp_all add: completionIndex_def)
  ultimately show ?thesis
    by (rule sorted_distinct_set_unique [rotated 4])
qed

text \<open>Claim C6. Adding a completion record \<open>c\<close>, anywhere in the list, for a date on which
  the habit already has a completion changes neither the current streak that StreakChart
  computes, for any habit and any as-of instant, nor the longest streak of section 4.2.\<close>

theorem C6_duplicate_completion_keeps_streaks:
  assumes "hasCompletion (cs1 @ cs2) (completion_date c)"
  shows "streakUpTo h (cs1 @ c # cs2) date = streakUpTo h (cs1 @ cs2) date
         \<and> longestStreakOf (cs1 @ c # cs2) = longestStreakOf (cs1 @ cs2)"
proof
  show "streakUpTo h (cs1 @ c # cs2) date = streakUpTo h (cs1 @ cs2) date"
    unfolding streakUpTo_def
    by (rule streakLoop_cong) (rule hasCompletion_insert_dup [OF assms])
  show "longestStreakOf (cs1 @ c # cs2) = longestStreakOf (cs1 @ cs2)"
    by (simp add: longestStreakOf_def completionIndex_insert_dup [OF assms])
qed

theorem C6_duplicate_completion_keeps_streaks_witness:
  "hasCompletion ([mkCompletion 20089] @ [mkCompletion 20090]) (completion_date (mkCompletion 20090\<lparr>id_c := 7\<rparr>))
   \<and> streakUpTo (mkHabit (20089 * DAY_MS)) ([mkCompletion 20089] @ (mkCompletion 20090\<lparr>id_c := 7\<rparr>) # [mkCompletion 20090]) (parse_ymd 20090) = 2
   \<and> longestStreakOf ([mkCompletion 20089] @ (mkCompletion 20090\<lparr>id_c := 7\<rparr>) # [mkCompletion 20090]) = 2"
proof -
  have d: "hasCompletion ([mkCompletion 20089] @ [mkCompletion 20090]) (completion_date (mkCompletion 20090\<lparr>id_c := 7\<rparr>))"
    by (simp add: hasCompletion_def mkCompletion_def)
  have s: "streakUpTo (mkHabit (20089 * DAY_MS)) ([mkCompletion 20089] @ [mkCompletion 20090]) (parse_ymd 20090) = 2"
    by (simp add: streakUpTo_def streakLoop.simps mkHabit_def mkCompletion_def parse_ymd_def
      DAY_MS_def hasCompletion_def format_ymd_def subDays_def)
  have l: "longestStreakOf ([mkCompletion 20089] @ [mkCompletion 20090]) = 2"
    by (simp add: longestStreakOf_def completionIndex_def mkCompletion_def)
  show ?thesis
    using d s l C6_duplicate_completion_keeps_streaks [OF d, of "mkHabit (20089 * DAY_MS)" "parse_ymd 20090"]
    by simp
qed

section \<open>The progress summary\<close>

lemma countCompletion_yesterday: "c_yesterday (countCompletion now weekAgo k c) = c_yesterday k"
  by (simp add: countCompletion_def Let_def)

lemma foldl_countCompletion_yesterday:
  "c_yesterday (foldl (countCompletion now weekAgo) k l) = c_yesterday k"
  by (induction l arbitrary: k) (simp_all add: countCompletion_yesterday)

lemma countHabit_yesterday: "c_yesterday (countHabit now weekAgo cs k h) = c_yesterday k"
  by (simp add: countHabit_def Let_def foldl_countCompletion_yesterday)

lemma foldl_countHabit_yesterday:
  "c_yesterday (foldl (countHabit now weekAgo cs) k hs) = c_yesterday k"
  by (induction hs arbitrary: k) (simp_all add: countHabit_yesterday)

lemma countAll_yesterday: "c_yesterday (countAll habits cs now) = 0"
  by (simp add: countAll_def Let_def foldl_countHabit_yesterday)

text \<open>Claim C10. The count of yesterday's completions in the progress summary is 0 for
  every input: no branch of the two loops touches it. The number shown above "vs Yesterday"
  is therefore today's count.\<close>

theorem C10_yesterday_count_is_zero:
  "yesterdayCompletions (stats habits cs ss now) = 0
   \<and> snd (vsYesterday (stats habits cs ss now)) = int (todayCompletions (stats habits cs ss now))"
proof -
  have y: "yesterdayCompletions (stats habits cs ss now) = 0"
    by (simp add: stats_def Let_def countAll_yesterday)
  then show ?thesis by (simp add: vsYesterday_def)
qed

section \<open>The completion trend\<close>

lemma div_DAY_shift: "(t - n * DAY_MS) div DAY_MS = t div DAY_MS - n"
proof -
  have nz: "DAY_MS \<noteq> 0" using DAY_MS_pos by simp
  have "(t + (- n) * DAY_MS) div DAY_MS = (- n) + t div DAY_MS"
    using nz by (rule div_mult_self1)
  then show ?thesis by simp
qed

lemma format_ymd_subDays: "format_ymd (subDays t n) = format_ymd t - n"
  by (simp add: format_ymd_def subDays_def div_DAY_shift)

lemma intervalsOf_Daily:
  assumes "1 \<le> days"
  shows "intervalsOf Daily days now =
           Inr (map (\<lambda>d. d * DAY_MS) [format_ymd now - (days - 1) .. format_ymd now])"
proof -
  have "0 \<le> (days - 1) * DAY_MS" using assms DAY_MS_pos by simp
  then have "\<not> subDays now (days - 1) > now" by (simp add: subDays_def)
  then show ?thesis
    using format_ymd_subDays [of now "days - 1"]
    by (simp add: intervalsOf_def Let_def eachDayOfInterval_def format_ymd_def)
qed

lemma startOfWeek_weekNo: "startOfWeek t = (7 * weekNo t - 4) * DAY_MS"
proof -
  have "format_ymd t - (format_ymd t + 4) mod 7 = 7 * ((format_ymd t + 4) div 7) - 4"
    by (simp add: minus_mod_eq_mult_div [symmetric])
  then show ?thesis
    by (simp add: startOfWeek_def startOfDay_def getDay_def weekNo_def format_ymd_def
        left_diff_distrib [symmetric])
qed

lemma format_ymd_startOfWeek: "format_ymd (startOfWeek t) = 7 * weekNo t - 4"
  by (simp add: startOfWeek_weekNo format_ymd_midnight)

lemma weekNo_startOfWeek: "weekNo (startOfWeek t) = weekNo t"
  by (simp add: weekNo_def format_ymd_startOfWeek)

lemma format_ymd_endOfWeek: "format_ymd (endOfWeek t) = 7 * weekNo t + 2"
proof -
  have "endOfWeek t = (7 * weekNo t + 2) * DAY_MS + (DAY_MS - 1)"
    by (simp add: endOfWeek_def startOfWeek_weekNo algebra_simps)
  moreover have "((7 * weekNo t + 2) * DAY_MS + (DAY_MS - 1)) div DAY_MS = 7 * weekNo t + 2"
    using DAY_MS_pos by (simp add: div_pos_pos_trivial)
  ultimately show ?thesis by (simp add: format_ymd_def)
qed

lemma weekNo_endOfWeek: "weekNo (endOfWeek t) = weekNo t"
  by (simp add: weekNo_def format_ymd_endOfWeek)

lemma startOfWeek_le_endOfWeek: "startOfWeek t \<le> endOfWeek t"
  using DAY_MS_pos by (simp add: endOfWeek_def)

lemma weekDays_of_week:
  "eachDayOfInterval (startOfWeek date) (endOfWeek date) =
     Inr (map (\<lambda>d. d * DAY_MS) [7 * weekNo date - 4 .. 7 * weekNo date + 2])"
  using startOfWeek_le_endOfWeek [of date] format_ymd_startOfWeek [of date]
    format_ymd_endOfWeek [of date]
  by (simp add: eachDayOfInterval_def format_ymd_def)

lemma weekNo_mono: "format_ymd s \<le> format_ymd e \<Longrightarrow> weekNo s \<le> weekNo e"
  by (simp add: weekNo_def zdiv_mono1)

lemma startOfWeek_idem: "startOfWeek (startOfWeek t) = startOfWeek t"
  by (simp add: startOfWeek_weekNo [of "startOfWeek t"] weekNo_startOfWeek)
     (simp add: startOfWeek_weekNo)

lemma startOfWeek_endOfWeek: "startOfWeek (endOfWeek t) = startOfWeek t"
  by (simp add: startOfWeek_weekNo [of "endOfWeek t"] weekNo_endOfWeek)
     (simp add: startOfWeek_weekNo)

lemma intervalsOf_Weekly:
  assumes "1 \<le> days"
  shows "intervalsOf Weekly days now =
           Inr (map (\<lambda>k. startOfWeek (subDays now (days - 1)) + k * (7 * DAY_MS))
                  [0 .. weekNo now - weekNo (subDays now (days - 1))])"
proof -
  let ?s = "subDays now (days - 1)"
  have w: "weekNo ?s \<le> weekNo now"
    using assms by (intro weekNo_mono) (simp add: format_ymd_subDays)
  have "startOfWeek ?s \<le> startOfWeek now"
    using w DAY_MS_pos by (simp add: startOfWeek_weekNo)
  also have "\<dots> \<le> endOfWeek now" by (rule startOfWeek_le_endOfWeek)
  finally have ok: "\<not> startOfWeek ?s > endOfWeek now" by simp
  have "startOfWeek now - startOfWeek ?s = (weekNo now - weekNo ?s) * (7 * DAY_MS)"
    by (simp add: startOfWeek_weekNo algebra_simps)
  then have "(startOfWeek now - startOfWeek ?s) div (7 * DAY_MS) = weekNo now - weekNo ?s"
    using DAY_MS_pos by simp
  then have "eachWeekOfInterval (startOfWeek ?s) (endOfWeek now) =
           Inr (map (\<lambda>k. startOfWeek ?s + k * (7 * DAY_MS)) [0 .. weekNo now - weekNo ?s])"
    using ok by (simp add: eachWeekOfInterval_def startOfWeek_idem startOfWeek_endOfWeek)
  then show ?thesis
    by (simp add: intervalsOf_def Let_def)
qed

lemma weekNo_window:
  "weekNo now - weekNo (subDays now (days - 1)) = (getDay (subDays now (days - 1)) + days - 1) div 7"
proof -
  define a where "a = format_ymd (subDays now (days - 1)) + 4"
  have e: "format_ymd now + 4 = a + (days - 1)"
    by (simp add: a_def format_ymd_subDays)
  have "a div 7 * 7 + (a mod 7 + days - 1) = (a div 7 * 7 + a mod 7) + (days - 1)"
    by linarith
  also have "\<dots> = a + (days - 1)"
    by (simp only: div_mult_mod_eq)
  finally have "(a div 7 * 7 + (a mod 7 + days - 1)) div 7 = (a + (days - 1)) div 7"
    by (rule arg_cong)
  moreover have "(a div 7 * 7 + (a mod 7 + days - 1)) div 7 = a div 7 + (a mod 7 + days - 1) div 7"
    by (rule div_mult_self3) simp
  ultimately have p: "(a + (days - 1)) div 7 = a div 7 + (a mod 7 + days - 1) div 7"
    by (simp only:)
  have g: "getDay (subDays now (days - 1)) = a mod 7"
    by (simp add: getDay_def a_def format_ymd_def)
  have w1: "weekNo (subDays now (days - 1)) = a div 7"
    by (simp add: weekNo_def a_def)
  have w2: "weekNo now = (a + (days - 1)) div 7"
    unfolding weekNo_def e ..
  show ?thesis
    unfolding g w1 w2 using p by linarith
qed

lemma countHabitsOn_eq:
  "countHabitsOn habits cs d n =
     n + length (filter (\<lambda>h. hasCompletion (completionsOf cs h) d) habits)"
  unfolding countHabitsOn_def by (induction habits arbitrary: n) simp_all

lemma foldl_add_sum_list:
  "foldl (\<lambda>n x. n + g x) (a::nat) xs = a + sum_list (map g xs)"
  by (induction xs arbitrary: a) simp_all

lemma habitsDoneOn_le: "habitsDoneOn habits cs d \<le> length habits"
  by (simp add: habitsDoneOn_def)

lemma periodCompletionsOf_Daily:
  "periodCompletionsOf habits cs Daily date = Inr (habitsDoneOn habits cs (format_ymd date))"
  by (simp add: periodCompletionsOf_def countHabitsOn_eq habitsDoneOn_def)

lemma periodCompletionsOf_Weekly:
  "periodCompletionsOf habits cs Weekly date =
     Inr (sum_list (map (habitsDoneOn habits cs)
            [format_ymd (startOfWeek date) .. format_ymd (endOfWeek date)]))"
proof -
  have "foldl (\<lambda>n day. countHabitsOn habits cs (format_ymd day) n) 0 xs
          = sum_list (map (\<lambda>day. habitsDoneOn habits cs (format_ymd day)) xs)" for xs
    using foldl_add_sum_list [of "\<lambda>day. habitsDoneOn habits cs (format_ymd day)" 0 xs]
    by (simp add: countHabitsOn_eq habitsDoneOn_def)
  then show ?thesis
    by (simp add: periodCompletionsOf_def weekDays_of_week format_ymd_startOfWeek
        format_ymd_endOfWeek comp_def format_ymd_midnight)
qed

lemma sum_list_bounded:
  "(\<And>x. x \<in> set xs \<Longrightarrow> g x \<le> (c::nat)) \<Longrightarrow> sum_list (map g xs) \<le> length xs * c"
  by (induction xs) (simp_all add: add_mono)

lemma week_has_7_days:
  "length [format_ymd (startOfWeek date) .. format_ymd (endOfWeek date)] = 7"
  by (simp add: format_ymd_startOfWeek format_ymd_endOfWeek)

lemma periodCompletionsOf_total: "\<exists>n. periodCompletionsOf habits cs p date = Inr n"
  by (cases p) (simp_all add: periodCompletionsOf_Daily periodCompletionsOf_Weekly)

lemma periodCompletionsOf_bound:
  assumes "periodCompletionsOf habits cs p date = Inr n"
  shows "n \<le> (case p of Daily \<Rightarrow> 1 | Weekly \<Rightarrow> 7) * length habits"
proof (cases p)
  case Daily
  then show ?thesis using assms by (auto simp: periodCompletionsOf_Daily habitsDoneOn_le)
next
  case Weekly
  have "sum_list (map (habitsDoneOn habits cs)
            [format_ymd (startOfWeek date) .. format_ymd (endOfWeek date)])
        \<le> length [format_ymd (startOfWeek date) .. format_ymd (endOfWeek date)] * length habits"
    by (rule sum_list_bounded) (rule habitsDoneOn_le)
  then have "sum_list (map (habitsDoneOn habits cs)
            [format_ymd (startOfWeek date) .. format_ymd (endOfWeek date)]) \<le> 7 * length habits"
    unfolding week_has_7_days .
  moreover have "n = sum_list (map (habitsDoneOn habits cs)
            [format_ymd (startOfWeek date) .. format_ymd (endOfWeek date)])"
    using assms Weekly by (simp only: periodCompletionsOf_Weekly sum.inject)
  ultimately show ?thesis using Weekly by simp
qed

lemma completionDataPoint_Inr:
  assumes "completionDataPoint habits cs p date = Inr b"
  shows "\<exists>n. periodCompletionsOf habits cs p date = Inr n
           \<and> cp_period b = date \<and> cp_completions b = n \<and> cp_totalHabits b = length habits
           \<and> cp_completionRate b = Math_round (bucketRate n (length habits))"
  using assms by (auto simp: completionDataPoint_def Let_def split: sum.splits)

lemma completionDataPoint_total: "\<exists>b. completionDataPoint habits cs p date = Inr b"
  using periodCompletionsOf_total [of habits cs p date]
  by (auto simp: completionDataPoint_def Let_def)

lemma mapE_Inr:
  "mapE f xs = Inr ys \<Longrightarrow> list_all2 (\<lambda>x y. f x = Inr y) xs ys"
  by (induction xs arbitrary: ys) (auto split: sum.splits)

lemma mapE_total:
  "(\<And>x. \<exists>y. f x = Inr y) \<Longrightarrow> \<exists>ys. mapE f xs = Inr ys"
proof (induction xs)
  case Nil
  then show ?case by simp
next
  case (Cons x xs)
  then obtain y ys where "f x = Inr y" "mapE f xs = Inr ys" by metis
  then show ?case by simp
qed

lemma list_all2_setD2: "list_all2 P xs ys \<Longrightarrow> y \<in> set ys \<Longrightarrow> \<exists>x\<in>set xs. P x y"
  by (induction rule: list_all2_induct) auto

lemma list_all2_eq_map: "list_all2 (\<lambda>x y. x = f y) xs ys \<Longrightarrow> xs = map f ys"
  by (induction rule: list_all2_induct) auto

lemma completionChartData_Inr:
  assumes "completionChartData habits cs p days now = Inr bs"
  shows "\<exists>intervals. intervalsOf p days now = Inr intervals
           \<and> list_all2 (\<lambda>date b. completionDataPoint habits cs p date = Inr b) intervals bs"
  using assms by (auto simp: completionChartData_def split: sum.splits dest: mapE_Inr)

lemma chart_bucket_source:
  assumes "completionChartData habits cs p days now = Inr bs" and "b \<in> set bs"
  shows "completionDataPoint habits cs p (cp_period b) = Inr b"
proof -
  from completionChartData_Inr [OF assms(1)] obtain intervals where
    l: "list_all2 (\<lambda>date b. completionDataPoint habits cs p date = Inr b) intervals bs"
    by blast
  from l assms(2) obtain date where "completionDataPoint habits cs p date = Inr b"
    by (blast dest: list_all2_setD2)
  moreover from this have "cp_period b = date"
    by (auto dest: completionDataPoint_Inr)
  ultimately show ?thesis by simp
qed

lemma chart_periods:
  assumes "completionChartData habits cs p days now = Inr bs"
  shows "intervalsOf p days now = Inr (map cp_period bs)"
proof -
  from completionChartData_Inr [OF assms] obtain intervals where
    i: "intervalsOf p days now = Inr intervals" and
    l: "list_all2 (\<lambda>date b. completionDataPoint habits cs p date = Inr b) intervals bs"
    by blast
  have "list_all2 (\<lambda>date b. date = cp_period b) intervals bs"
    using l by (rule list_all2_mono) (auto dest: completionDataPoint_Inr)
  then have "intervals = map cp_period bs"
    by (rule list_all2_eq_map)
  with i show ?thesis by simp
qed

lemma strictly_sorted_scaled_upto:
  assumes "0 < (m::int)"
  shows "sorted_wrt (<) (map (\<lambda>k. c + k * m) [a..b])"
proof -
  have "sorted_wrt (<) [a..b]"
    by (simp add: strict_sorted_iff)
  then have "sorted_wrt (\<lambda>x y. c + x * m < c + y * m) [a..b]"
    by (rule sorted_wrt_mono_rel [rotated]) (use assms in simp)
  then show ?thesis by (simp add: sorted_wrt_map)
qed

lemma intervals_sorted:
  assumes "intervalsOf p days now = Inr intervals"
  shows "sorted_wrt (<) intervals"
proof (cases p)
  case Daily
  then have "intervals = map (\<lambda>k. 0 + k * DAY_MS)
      [subDays now (days - 1) div DAY_MS .. now div DAY_MS]"
    using assms by (auto simp: intervalsOf_def Let_def eachDayOfInterval_def split: if_splits)
  then show ?thesis using strictly_sorted_scaled_upto [OF DAY_MS_pos, of 0] by simp
next
  case Weekly
  have "0 < 7 * DAY_MS" using DAY_MS_pos by simp
  from Weekly obtain s j where "intervals = map (\<lambda>k. s + k * (7 * DAY_MS)) [0 .. j]"
    using assms by (auto simp: intervalsOf_def Let_def eachWeekOfInterval_def split: if_splits)
  then show ?thesis using strictly_sorted_scaled_upto [OF \<open>0 < 7 * DAY_MS\<close>] by simp
qed

lemma getDay_range: "0 \<le> getDay t \<and> getDay t \<le> 6"
  by (simp add: getDay_def)

lemma ceiling_seventh: "\<lceil>real_of_int n / 7\<rceil> = (n + 6) div 7"
proof -
  have "\<lceil>real_of_int n / real_of_int 7\<rceil> = - ((- n) div 7)"
    by (rule ceiling_divide_eq_div)
  also have "\<dots> = (n + 6) div 7" by presburger
  finally show ?thesis by simp
qed

lemma weeks_lower_bound: "(0::int) \<le> r \<Longrightarrow> r \<le> 6 \<Longrightarrow> (n + 6) div 7 \<le> (r + n - 1) div 7 + 1"
  by presburger

lemma weeks_upper_bound: "(0::int) \<le> r \<Longrightarrow> r \<le> 6 \<Longrightarrow> (r + n - 1) div 7 + 1 \<le> (n + 6) div 7 + 1"
  by presburger

text \<open>Claim C3, amended. For a window of at least one day the series is returned, oldest
  bucket first, whatever the completions are. Daily, it has exactly \<open>days\<close> buckets. Weekly,
  it has one bucket for every Sunday-to-Saturday week that the window touches: the number
  is fixed by the week day on which the window starts, and is \<open>\<lceil>days / 7\<rceil>\<close> or one more.\<close>

theorem C3_bucket_count:
  assumes "1 \<le> days"
  shows "\<exists>bs. completionChartData habits cs p days now = Inr bs
           \<and> int (length bs) =
               (case p of
                  Daily \<Rightarrow> days
                | Weekly \<Rightarrow> (getDay (subDays now (days - 1)) + days - 1) div 7 + 1)
           \<and> (p = Weekly \<longrightarrow>
                 \<lceil>real_of_int days / 7\<rceil> \<le> int (length bs)
                 \<and> int (length bs) \<le> \<lceil>real_of_int days / 7\<rceil> + 1)
           \<and> sorted_wrt (<) (map cp_period bs)"
proof -
  obtain intervals where i: "intervalsOf p days now = Inr intervals"
    using assms by (cases p) (simp_all add: intervalsOf_Daily intervalsOf_Weekly)
  obtain bs where bs: "completionChartData habits cs p days now = Inr bs"
    using mapE_total [of "completionDataPoint habits cs p" intervals] i
      completionDataPoint_total [of habits cs p]
    by (auto simp: completionChartData_def)
  have m: "intervals = map cp_period bs"
    using chart_periods [OF bs] i by simp
  have len: "int (length bs) =
               (case p of
                  Daily \<Rightarrow> days
                | Weekly \<Rightarrow> (getDay (subDays now (days - 1)) + days - 1) div 7 + 1)"
  proof (cases p)
    case Daily
    have "Inr intervals = Inr (map (\<lambda>d. d * DAY_MS) [format_ymd now - (days - 1) .. format_ymd now])"
      using i Daily intervalsOf_Daily [OF assms, of now] by simp
    then have "length intervals = nat days"
      by simp
    then show ?thesis using Daily m assms by simp
  next
    case Weekly
    have "0 \<le> (getDay (subDays now (days - 1)) + days - 1) div 7"
      using getDay_range [of "subDays now (days - 1)"] assms
      by (intro pos_imp_zdiv_nonneg_iff [THEN iffD2]) simp_all
    moreover have "Inr intervals =
        Inr (map (\<lambda>k. startOfWeek (subDays now (days - 1)) + k * (7 * DAY_MS))
                  [0 .. weekNo now - weekNo (subDays now (days - 1))])"
      using i Weekly intervalsOf_Weekly [OF assms, of now] by simp
    then have "length intervals = nat (weekNo now - weekNo (subDays now (days - 1)) + 1)"
      by simp
    ultimately show ?thesis using Weekly m by (simp add: weekNo_window)
  qed
  have wk: "p = Weekly \<longrightarrow>
          \<lceil>real_of_int days / 7\<rceil> \<le> int (length bs)
          \<and> int (length bs) \<le> \<lceil>real_of_int days / 7\<rceil> + 1"
  proof
    assume "p = Weekly"
    then have "int (length bs) = (getDay (subDays now (days - 1)) + days - 1) div 7 + 1"
      using len by simp
    then show "\<lceil>real_of_int days / 7\<rceil> \<le> int (length bs)
          \<and> int (length bs) \<le> \<lceil>real_of_int days / 7\<rceil> + 1"
      using weeks_lower_bound [of "getDay (subDays now (days - 1))" days]
        weeks_upper_bound [of "getDay (subDays now (days - 1))" days]
        getDay_range [of "subDays now (days - 1)"]
      by (simp only: ceiling_seventh)
  qed
  have so: "sorted_wrt (<) (map cp_period bs)"
    using intervals_sorted [OF i] m by simp
  show ?thesis
    by (intro exI [of _ bs] conjI) (fact bs len wk so)+
qed

text \<open>Claim C3, as stated, fails for weekly buckets. On Wednesday 2025-01-08 the 7-day window
  starts on Thursday 01-02 and touches two weeks: the series has two buckets, not
  \<open>\<lceil>7 / 7\<rceil> = 1\<close>.\<close>

theorem C3_weekly_bucket_count_counterexample:
  "completionChartData [mkHabit (20089 * DAY_MS)]
       [1 \<mapsto> [mkCompletion 20095, mkCompletion 20096]] Weekly 7 (20096 * DAY_MS + 36000000)
     = Inr [\<lparr>cp_period = 20086 * DAY_MS, cp_completions = 0, cp_totalHabits = 1,
              cp_completionRate = 0\<rparr>,
            \<lparr>cp_period = 20093 * DAY_MS, cp_completions = 2, cp_totalHabits = 1,
              cp_completionRate = 200\<rparr>]
   \<and> \<lceil>(7::real) / 7\<rceil> = 1"
  by code_simp

theorem C3_bucket_count_witness:
  "(1::int) \<le> 7
   \<and> (\<exists>bs. completionChartData [mkHabit (20089 * DAY_MS)]
               [1 \<mapsto> [mkCompletion 20095, mkCompletion 20096]] Weekly 7
               (20096 * DAY_MS + 36000000) = Inr bs
             \<and> int (length bs) = 2 \<and> sorted_wrt (<) (map cp_period bs))"
proof -
  have d: "(1::int) \<le> 7" by simp
  have g: "(getDay (subDays (20096 * DAY_MS + 36000000) (7 - 1)) + 7 - 1) div 7 + 1 = 2"
    by code_simp
  show ?thesis
    using d g C3_bucket_count [OF d, of "[mkHabit (20089 * DAY_MS)]"
        "[1 \<mapsto> [mkCompletion 20095, mkCompletion 20096]]" Weekly "20096 * DAY_MS + 36000000"]
    by auto
qed

text \<open>Claim C4, amended. The completion count of a weekly bucket is the sum, over the days from
  the start to the end of the week of the bucket, of the number of habits with a completion
  on that day: a habit completed on \<open>k\<close> days of the week is counted \<open>k\<close> times (several
  records of one habit on one day count once).\<close>

theorem C4_weekly_bucket_counts_habit_days:
  assumes "completionChartData habits cs Weekly days now = Inr bs" and "b \<in> set bs"
  shows "cp_completions b =
           sum_list (map (habitsDoneOn habits cs)
             [format_ymd (startOfWeek (cp_period b)) .. format_ymd (endOfWeek (cp_period b))])"
proof -
  have "completionDataPoint habits cs Weekly (cp_period b) = Inr b"
    using assms by (rule chart_bucket_source)
  from completionDataPoint_Inr [OF this]
  obtain n where "periodCompletionsOf habits cs Weekly (cp_period b) = Inr n"
    and "cp_completions b = n"
    by blast
  then show ?thesis by (simp add: periodCompletionsOf_Weekly)
qed

text \<open>Claim C4, as stated, fails. One habit, completed on Monday, Tuesday and Wednesday of the
  same week: the weekly bucket counts 3, although only one habit exists.\<close>

theorem C4_weekly_count_counterexample:
  "completionChartData [mkHabit (20089 * DAY_MS)]
       [1 \<mapsto> [mkCompletion 20094, mkCompletion 20095, mkCompletion 20096]] Weekly 1
       (20096 * DAY_MS + 36000000)
     = Inr [\<lparr>cp_period = 20093 * DAY_MS, cp_completions = 3, cp_totalHabits = 1,
              cp_completionRate = 300\<rparr>]"
  by code_simp

theorem C4_weekly_bucket_counts_habit_days_witness:
  "completionChartData [mkHabit (20089 * DAY_MS)]
       [1 \<mapsto> [mkCompletion 20094, mkCompletion 20095, mkCompletion 20096]] Weekly 1
       (20096 * DAY_MS + 36000000)
     = Inr [\<lparr>cp_period = 20093 * DAY_MS, cp_completions = 3, cp_totalHabits = 1,
              cp_completionRate = 300\<rparr>]
   \<and> sum_list (map (habitsDoneOn [mkHabit (20089 * DAY_MS)]
                      [1 \<mapsto> [mkCompletion 20094, mkCompletion 20095, mkCompletion 20096]])
         [format_ymd (startOfWeek (20093 * DAY_MS)) .. format_ymd (endOfWeek (20093 * DAY_MS))]) = 3"
proof -
  have e: "completionChartData [mkHabit (20089 * DAY_MS)]
       [1 \<mapsto> [mkCompletion 20094, mkCompletion 20095, mkCompletion 20096]] Weekly 1
       (20096 * DAY_MS + 36000000)
     = Inr [\<lparr>cp_period = 20093 * DAY_MS, cp_completions = 3, cp_totalHabits = 1,
              cp_completionRate = 300\<rparr>]"
    by code_simp
  show ?thesis
    using e C4_weekly_bucket_counts_habit_days [OF e,
        of "\<lparr>cp_period = 20093 * DAY_MS, cp_completions = 3, cp_totalHabits = 1,
              cp_completionRate = 300\<rparr>"]
    by simp
qed

section \<open>Rounding to binary64\<close>

text \<open>The rounded value of a positive number keeps its sign, its exponent is the binary
  exponent of the number, and it is within half a unit in the last place.\<close>

lemma round_half_even_pos: "1 \<le> x \<Longrightarrow> 1 \<le> round_half_even x"
proof -
  assume "1 \<le> x"
  then have "1 \<le> \<lfloor>x\<rfloor>" by (simp add: le_floor_iff)
  then show ?thesis by (simp add: round_half_even_def Let_def)
qed

lemma powi_bitlen_lower:
  assumes "0 < p"
  shows "(2::rat) powi (bitlen p - 1) \<le> of_int p"
proof -
  have b: "0 \<le> bitlen p - 1"
  proof (rule ccontr)
    assume "\<not> 0 \<le> bitlen p - 1"
    then have "nat (bitlen p) = 0" by simp
    then have "p < 1" using bitlen_bounds [OF assms] by simp
    then show False using assms by simp
  qed
  have "(2::int) ^ nat (bitlen p - 1) \<le> p" using bitlen_bounds [OF assms] by simp
  then have "rat_of_int (2 ^ nat (bitlen p - 1)) \<le> of_int p" by (simp only: of_int_le_iff)
  then show ?thesis using b by (simp add: power_int_def)
qed

lemma powi_bitlen_upper:
  assumes "0 < q"
  shows "of_int q \<le> (2::rat) powi (bitlen q)"
proof -
  have "q \<le> (2::int) ^ nat (bitlen q)" using bitlen_bounds [OF assms] by simp
  then have "rat_of_int q \<le> of_int (2 ^ nat (bitlen q))" by (simp only: of_int_le_iff)
  then show ?thesis using bitlen_nonneg [of q] by (simp add: power_int_def)
qed

lemma exponentOf_le:
  assumes "0 < x"
  shows "2 powi (exponentOf x) \<le> x"
proof -
  obtain p q where pq: "quotient_of x = (p, q)" by (cases "quotient_of x")
  have q: "0 < q" using pq by (rule quotient_of_denom_pos)
  have x: "x = of_int p / of_int q" using pq by (rule quotient_of_div)
  have p: "0 < p" using assms q unfolding x by (simp add: zero_less_divide_iff)
  have "(2::rat) powi (bitlen p - bitlen q - 1) = 2 powi (bitlen p - 1) / 2 powi (bitlen q)"
    by (simp add: power_int_diff [symmetric] algebra_simps)
  also have "\<dots> \<le> of_int p / of_int q"
    using powi_bitlen_lower [OF p] powi_bitlen_upper [OF q] p q
    by (intro frac_le) simp_all
  finally have "(2::rat) powi (bitlen p - bitlen q - 1) \<le> x" unfolding x .
  then show ?thesis
    by (simp add: exponentOf_def pq Let_def)
qed

lemma fl64pos_pos:
  assumes "0 < x"
  shows "0 < fl64pos x"
proof -
  define e where "e = exponentOf x - 52"
  have "(2::rat) powi e \<le> 2 powi (exponentOf x)"
    unfolding e_def by (rule power_int_increasing) simp_all
  also have "\<dots> \<le> x" using assms by (rule exponentOf_le)
  finally have "1 \<le> x / 2 powi e" by (simp add: pos_le_divide_eq)
  then have "1 \<le> round_half_even (x / 2 powi e)" by (rule round_half_even_pos)
  then have "0 < rat_of_int (round_half_even (x / 2 powi e))" by simp
  then have "0 < of_int (round_half_even (x / 2 powi e)) * (2::rat) powi e"
    by (intro mult_pos_pos) simp_all
  then show ?thesis by (simp add: fl64pos_def e_def Let_def)
qed

lemma fl64_le_0_iff: "(fl64 x \<le> 0) = (x \<le> 0)"
proof -
  consider "x = 0" | "x < 0" | "0 < x" by linarith
  then show ?thesis
  proof cases
    case 1
    then show ?thesis by (simp add: fl64_def)
  next
    case 2
    then have "0 < fl64pos (- x)" by (intro fl64pos_pos) simp
    then show ?thesis using 2 by (simp add: fl64_def)
  next
    case 3
    then have "0 < fl64pos x" by (rule fl64pos_pos)
    then show ?thesis using 3 by (simp add: fl64_def)
  qed
qed

lemma fsub_le_0_iff: "(fsub y x \<le> 0) = (y \<le> x)"
  by (simp add: fsub_def fl64_le_0_iff)

lemma round_half_even_error: "\<bar>of_int (round_half_even x) - x\<bar> \<le> 1 / 2"
proof -
  have fl: "of_int \<lfloor>x\<rfloor> \<le> x" "x < of_int \<lfloor>x\<rfloor> + 1" by linarith+
  show ?thesis
    unfolding round_half_even_def Let_def using fl
    by (auto simp: abs_le_iff; linarith)
qed

lemma exponentOf_less:
  assumes "0 < x"
  shows "x < 2 powi (exponentOf x + 1)"
proof -
  obtain p q where pq: "quotient_of x = (p, q)" by (cases "quotient_of x")
  have q: "0 < q" using pq by (rule quotient_of_denom_pos)
  have x: "x = of_int p / of_int q" using pq by (rule quotient_of_div)
  have p: "0 < p" using assms q unfolding x by (simp add: zero_less_divide_iff)
  have pu: "rat_of_int p < 2 powi (bitlen p)"
  proof -
    have "p < (2::int) ^ nat (bitlen p)" using bitlen_bounds [OF p] by simp
    then have "rat_of_int p < of_int (2 ^ nat (bitlen p))" by (simp only: of_int_less_iff)
    then show ?thesis using bitlen_nonneg [of p] by (simp add: power_int_def)
  qed
  have ql: "(2::rat) powi (bitlen q - 1) \<le> of_int q" using q by (rule powi_bitlen_lower)
  have "of_int p / of_int q < (2::rat) powi (bitlen p) / 2 powi (bitlen q - 1)"
    using pu ql p q by (intro frac_less) simp_all
  also have "\<dots> = 2 powi (bitlen p - bitlen q + 1)"
    by (simp add: power_int_diff [symmetric] algebra_simps)
  finally have "x < 2 powi (bitlen p - bitlen q + 1)" unfolding x .
  then show ?thesis
    by (auto simp: exponentOf_def pq Let_def not_le)
qed

lemma fl64pos_error:
  "\<bar>fl64pos x - x\<bar> \<le> 2 powi (exponentOf x - 53)"
proof -
  define e where "e = exponentOf x - 52"
  have pe: "(0::rat) < 2 powi e" by simp
  have "fl64pos x - x = (of_int (round_half_even (x / 2 powi e)) - x / 2 powi e) * 2 powi e"
    using pe by (simp add: fl64pos_def e_def [symmetric] Let_def left_diff_distrib)
  then have "\<bar>fl64pos x - x\<bar> = \<bar>of_int (round_half_even (x / 2 powi e)) - x / 2 powi e\<bar> * \<bar>2 powi e\<bar>"
    by (simp only: abs_mult)
  also have "\<dots> = \<bar>of_int (round_half_even (x / 2 powi e)) - x / 2 powi e\<bar> * 2 powi e"
    using pe by simp
  also have "\<dots> \<le> (1 / 2) * 2 powi e"
    using round_half_even_error [of "x / 2 powi e"] pe by (intro mult_right_mono) simp_all
  also have "\<dots> = 2 powi (e - 1)"
    by (simp add: power_int_diff)
  finally show ?thesis by (simp add: e_def)
qed

section \<open>Completion rates\<close>

text \<open>The rounding of binary64 is visible in a rate: 23 completions over 40 possible ones
  are 57 percent, where the exact quotient 57.5 would round to 58. So it is for a category
  whose habit is in its 40th day, and for the overall rate 40 whole days after the creation
  of the only habit.\<close>

lemma rate_23_of_40: "Math_round (fmul (fdiv 23 40) 100) = 57"
  by code_simp

lemma category_rate_23_of_40:
  "map cd_completionRate (categoryChartData [mkHabit (20057 * DAY_MS)]
       [1 \<mapsto> map mkCompletion [20057, 20058, 20059, 20060, 20061, 20062, 20063, 20064,
          20065, 20066, 20067, 20068, 20069, 20070, 20071, 20072, 20073, 20074, 20075,
          20076, 20077, 20078, 20079]] [] Count (20096 * DAY_MS + 36000000)) = [57]"
  by code_simp

lemma overall_rate_23_of_40:
  "completionRate (stats [mkHabit (20056 * DAY_MS)]
       [1 \<mapsto> map mkCompletion [20057, 20058, 20059, 20060, 20061, 20062, 20063, 20064,
          20065, 20066, 20067, 20068, 20069, 20070, 20071, 20072, 20073, 20074, 20075,
          20076, 20077, 20078, 20079]] [] (20096 * DAY_MS + 36000000)) = 57"
  by code_simp

text \<open>Claim C5. Every completion rate should lie between 0 and 100. The code prints these
  rates above 100:
  \<^item> the weekly trend bucket of one habit completed on the seven days of the week, 700
    (the count of habit-days is divided by the number of habits, not by seven times it);
  \<^item> the overall rate of one habit created at midnight and completed on each of its eight
    days, seen at 10:00 of the eighth day, 114 (seven whole days have elapsed);
  \<^item> the weekly rate of the summary for the same habit, seen at midnight, 114 (eight
    completion dates are not before the instant seven days ago);
  \<^item> the rate of the category of a habit created at 23:00 and completed on that day and
    the next, seen at 01:00 of the next day, 200 (one day counted for two dates).\<close>

theorem C5_rates_above_100:
  "completionChartData [mkHabit (20093 * DAY_MS)]
       [1 \<mapsto> map mkCompletion [20093, 20094, 20095, 20096, 20097, 20098, 20099]] Weekly 7
       (20099 * DAY_MS + 36000000)
     = Inr [\<lparr>cp_period = 20093 * DAY_MS, cp_completions = 7, cp_totalHabits = 1,
              cp_completionRate = 700\<rparr>]
   \<and> completionRate (stats [mkHabit (20089 * DAY_MS)]
         [1 \<mapsto> map mkCompletion [20089, 20090, 20091, 20092, 20093, 20094, 20095, 20096]] []
         (20096 * DAY_MS + 36000000)) = 114
   \<and> weeklyCompletionRate (stats [mkHabit (20089 * DAY_MS)]
         [1 \<mapsto> map mkCompletion [20089, 20090, 20091, 20092, 20093, 20094, 20095, 20096]] []
         (20096 * DAY_MS)) = 114
   \<and> map cd_completionRate (categoryChartData [mkHabit (20089 * DAY_MS + 82800000)]
         [1 \<mapsto> [mkCompletion 20089, mkCompletion 20090]] [] Count (20090 * DAY_MS + 3600000))
       = [200]"
  by code_simp

section \<open>Category statistics\<close>

lemma map_fst_pushHabit:
  "map fst (pushHabit c h m) = (if c \<in> set (map fst m) then map fst m else map fst m @ [c])"
  by (induction m) (force split: if_splits)+

lemma map_of_pushHabit:
  "map_of (pushHabit c h m) k =
     (if k = c then Some ((case map_of m c of None \<Rightarrow> [] | Some g \<Rightarrow> g) @ [h])
      else map_of m k)"
  by (induction m) auto

lemma categoryMap_snoc:
  "categoryMap (hs @ [h]) = pushHabit (categoryOf h) h (categoryMap hs)"
  by (simp add: categoryMap_def)

lemma firstOccurrences_snoc:
  "firstOccurrences (xs @ [x]) =
     (if x \<in> set xs then firstOccurrences xs else firstOccurrences xs @ [x])"
  by (simp add: firstOccurrences_def)

lemma set_firstOccurrences: "set (firstOccurrences xs) = set xs"
  by (simp add: firstOccurrences_def)

lemma keys_categoryMap:
  "map fst (categoryMap hs) = firstOccurrences (map categoryOf hs)"
proof (induction hs rule: rev_induct)
  case Nil
  then show ?case by (simp add: categoryMap_def firstOccurrences_def)
next
  case (snoc h hs)
  then show ?case
    by (simp add: categoryMap_snoc map_fst_pushHabit firstOccurrences_snoc set_firstOccurrences)
qed

lemma distinct_keys_categoryMap: "distinct (map fst (categoryMap hs))"
  by (simp add: keys_categoryMap firstOccurrences_def)

lemma filter_category_empty:
  "k \<notin> categoryOf ` set hs \<Longrightarrow> filter (\<lambda>h. categoryOf h = k) hs = []"
  by (induction hs) auto

lemma map_of_categoryMap:
  "map_of (categoryMap hs) k =
     (if k \<in> categoryOf ` set hs then Some (filter (\<lambda>h. categoryOf h = k) hs) else None)"
proof (induction hs rule: rev_induct)
  case Nil
  then show ?case by (simp add: categoryMap_def)
next
  case (snoc h hs)
  show ?case
  proof (cases "k = categoryOf h")
    case True
    have "(case map_of (categoryMap hs) k of None \<Rightarrow> [] | Some g \<Rightarrow> g)
            = filter (\<lambda>h. categoryOf h = k) hs"
      using snoc by (simp add: filter_category_empty)
    then show ?thesis
      using True by (simp add: categoryMap_snoc map_of_pushHabit)
  next
    case False
    then show ?thesis
      using snoc by (simp add: categoryMap_snoc map_of_pushHabit)
  qed
qed

lemma categoryMap_entry:
  assumes "(k, g) \<in> set (categoryMap hs)"
  shows "g = filter (\<lambda>h. categoryOf h = k) hs \<and> k \<in> categoryOf ` set hs"
proof -
  have "map_of (categoryMap hs) k = Some g"
    using assms distinct_keys_categoryMap by (simp add: map_of_eq_Some_iff)
  then show ?thesis
    by (auto simp: map_of_categoryMap split: if_splits)
qed

text \<open>Claim C7. The completion rate of a category should be the completions of its habits
  over the sum of their days since creation, \<open>asOf - created + 1\<close> for each habit. The code
  counts the whole 24-hour periods between the two instants and adds one. A habit created
  on 2025-01-01 at 23:00 with completions on 01-01 and 01-02, seen on 01-02 at 01:00: the
  dates give 2 days and a rate of 100 percent, the code counts 1 day and gives 200.\<close>

theorem C7_category_rate_counts_elapsed_periods:
  "format_ymd (20090 * DAY_MS + 3600000)
       - format_ymd (created_at (mkHabit (20089 * DAY_MS + 82800000))) + 1 = 2
   \<and> length [mkCompletion 20089, mkCompletion 20090] = 2
   \<and> Math_round (fmul (fdiv 2 2) 100) = 100
   \<and> daysSinceCreation (20090 * DAY_MS + 3600000) (mkHabit (20089 * DAY_MS + 82800000)) = 1
   \<and> map cd_completionRate (categoryChartData [mkHabit (20089 * DAY_MS + 82800000)]
         [1 \<mapsto> [mkCompletion 20089, mkCompletion 20090]] [] Count (20090 * DAY_MS + 3600000))
       = [200]"
  by code_simp

lemma insertBy_insort:
  "insertBy (\<lambda>a b. fsub (f b) (f a)) x ys = insort_key (\<lambda>a. - f a) x ys"
  by (induction ys) (simp_all add: fsub_le_0_iff)

lemma Array_sort_sort_key:
  "Array_sort (\<lambda>a b. fsub (f b) (f a)) xs = sort_key (\<lambda>a. - f a) xs"
  unfolding Array_sort_def sort_key_def
  by (induction xs) (simp_all add: insertBy_insort)

lemma set_categoryChartData:
  "set (categoryChartData habits cs ss m now) =
     categoryEntry cs ss m now ` set (categoryMap habits)"
  by (simp add: categoryChartData_def Array_sort_sort_key)

lemma foldl_add_int_sum_list:
  "foldl (\<lambda>n x. n + g x) (a::int) xs = a + sum_list (map g xs)"
  by (induction xs arbitrary: a) simp_all

lemma categoryCompletionRate_eq:
  "categoryCompletionRate cs now hs =
     (if 0 < sum_list (map (daysSinceCreation now) hs)
      then fmul (fdiv (of_int (sum_list (map (\<lambda>h. int (length (completionsOf cs h))) hs)))
                      (of_int (sum_list (map (daysSinceCreation now) hs)))) 100
      else 0)"
  by (simp add: categoryCompletionRate_def Let_def totalCompletionsOf_def
      totalPossibleCompletionsOf_def foldl_add_int_sum_list)

lemma categoryAverageStreak_eq:
  "categoryAverageStreak ss hs =
     (if hs \<noteq> []
      then fdiv (of_int (sum_list (map (currentStreakOf ss) hs))) (of_nat (length hs))
      else 0)"
  by (simp add: categoryAverageStreak_def Let_def foldl_add_int_sum_list)

lemma categoryChartData_value:
  assumes "e \<in> set (categoryChartData habits cs ss m now)"
  shows "cd_value e =
           (let hs = filter (\<lambda>h. categoryOf h = cd_category e) habits
              in case m of
                   Count \<Rightarrow> of_nat (length hs)
                 | CompletionRate \<Rightarrow>
                     of_int (Math_round
                       (if 0 < sum_list (map (daysSinceCreation now) hs)
                        then fmul (fdiv (of_int (sum_list (map (\<lambda>h. int (length (completionsOf cs h))) hs)))
                                        (of_int (sum_list (map (daysSinceCreation now) hs)))) 100
                        else 0))
                 | AverageStreak \<Rightarrow>
                     fdiv (of_int (Math_round (fmul
                       (if hs \<noteq> []
                        then fdiv (of_int (sum_list (map (currentStreakOf ss) hs))) (of_nat (length hs))
                        else 0) 10))) 10)"
proof -
  from assms obtain k g where kg: "(k, g) \<in> set (categoryMap habits)"
    and e: "e = categoryEntry cs ss m now (k, g)"
    by (auto simp: set_categoryChartData)
  have k: "cd_category e = k"
    by (simp add: e categoryEntry_def Let_def)
  have g: "g = filter (\<lambda>h. categoryOf h = cd_category e) habits"
    using categoryMap_entry [OF kg] k by simp
  have "cd_value e =
           (case m of
              Count \<Rightarrow> of_nat (length g)
            | CompletionRate \<Rightarrow> of_int (Math_round (categoryCompletionRate cs now g))
            | AverageStreak \<Rightarrow>
                fdiv (of_int (Math_round (fmul (categoryAverageStreak ss g) 10))) 10)"
    by (cases m) (simp_all add: e categoryEntry_def Let_def)
  then show ?thesis
    unfolding g categoryCompletionRate_eq categoryAverageStreak_eq Let_def .
qed

lemma sorted_desc_sort_key:
  "sorted_wrt (\<lambda>a b. f b \<le> (f a :: rat)) (sort_key (\<lambda>a. - f a) xs)"
proof -
  have "sorted (map (\<lambda>a. - f a) (sort_key (\<lambda>a. - f a) xs))"
    by (rule sorted_sort_key)
  then show ?thesis by (simp add: sorted_map)
qed

lemma stable_ties_sort_key:
  "filter (\<lambda>a. f a = v) (sort_key (\<lambda>a. - f a) xs) = filter (\<lambda>a. f a = (v::rat)) xs"
proof -
  have "filter (\<lambda>a. - f a = - v) (sort_key (\<lambda>a. - f a) xs) = filter (\<lambda>a. - f a = - v) xs"
    by (rule sort_key_stable)
  then show ?thesis by simp
qed

text \<open>Claim C8, amended. The entries are in descending order of \<open>value\<close>, and the value of an
  entry is the requested metric of the habits of its category: their number, their rounded
  completion rate, or their average streak rounded to one decimal. Entries with the same
  value keep the order they have before the sort, which is the order in which their
  categories first occur in the list of habits.\<close>

theorem C8_sorted_by_metric_ties_by_first_appearance:
  "sorted_wrt (\<lambda>a b. cd_value b \<le> cd_value a) (categoryChartData habits cs ss m now)
   \<and> (e \<in> set (categoryChartData habits cs ss m now) \<longrightarrow>
        cd_value e =
          (let hs = filter (\<lambda>h. categoryOf h = cd_category e) habits
            in case m of
                 Count \<Rightarrow> of_nat (length hs)
               | CompletionRate \<Rightarrow>
                   of_int (Math_round
                     (if 0 < sum_list (map (daysSinceCreation now) hs)
                      then fmul (fdiv (of_int (sum_list (map (\<lambda>h. int (length (completionsOf cs h))) hs)))
                                      (of_int (sum_list (map (daysSinceCreation now) hs)))) 100
                      else 0))
               | AverageStreak \<Rightarrow>
                   fdiv (of_int (Math_round (fmul
                     (if hs \<noteq> []
                      then fdiv (of_int (sum_list (map (currentStreakOf ss) hs))) (of_nat (length hs))
                      else 0) 10))) 10))
   \<and> filter (\<lambda>e. cd_value e = v) (categoryChartData habits cs ss m now)
       = filter (\<lambda>e. cd_value e = v) (map (categoryEntry cs ss m now) (categoryMap habits))
   \<and> map cd_category (map (categoryEntry cs ss m now) (categoryMap habits))
       = firstOccurrences (map categoryOf habits)"
proof (intro conjI impI)
  show "sorted_wrt (\<lambda>a b. cd_value b \<le> cd_value a) (categoryChartData habits cs ss m now)"
    unfolding categoryChartData_def Array_sort_sort_key by (rule sorted_desc_sort_key)
  show "filter (\<lambda>e. cd_value e = v) (categoryChartData habits cs ss m now)
       = filter (\<lambda>e. cd_value e = v) (map (categoryEntry cs ss m now) (categoryMap habits))"
    unfolding categoryChartData_def Array_sort_sort_key by (rule stable_ties_sort_key)
  have "map cd_category (map (categoryEntry cs ss m now) (categoryMap habits))
          = map fst (categoryMap habits)"
    by (simp add: categoryEntry_def Let_def comp_def)
  then show "map cd_category (map (categoryEntry cs ss m now) (categoryMap habits))
       = firstOccurrences (map categoryOf habits)"
    by (simp only: keys_categoryMap)
next
  assume "e \<in> set (categoryChartData habits cs ss m now)"
  then show "cd_value e =
          (let hs = filter (\<lambda>h. categoryOf h = cd_category e) habits
            in case m of
                 Count \<Rightarrow> of_nat (length hs)
               | CompletionRate \<Rightarrow>
                   of_int (Math_round
                     (if 0 < sum_list (map (daysSinceCreation now) hs)
                      then fmul (fdiv (of_int (sum_list (map (\<lambda>h. int (length (completionsOf cs h))) hs)))
                                      (of_int (sum_list (map (daysSinceCreation now) hs)))) 100
                      else 0))
               | AverageStreak \<Rightarrow>
                   fdiv (of_int (Math_round (fmul
                     (if hs \<noteq> []
                      then fdiv (of_int (sum_list (map (currentStreakOf ss) hs))) (of_nat (length hs))
                      else 0) 10))) 10)"
    by (rule categoryChartData_value)
qed

theorem C8_sorted_by_metric_ties_by_first_appearance_witness:
  "\<lparr>cd_category = ''A'', cd_value = 9 / 2, cd_count = 2, cd_completionRate = 0,
       cd_averageStreak = 9 / 2\<rparr>
     \<in> set (categoryChartData [mkHabitIn 1 ''B'', mkHabitIn 2 ''A'', mkHabitIn 3 ''A''] Map.empty
       [(1, \<lparr>current_streak = 2, longest_streak = 2\<rparr>),
        (2, \<lparr>current_streak = 5, longest_streak = 5\<rparr>),
        (3, \<lparr>current_streak = 4, longest_streak = 4\<rparr>)]
       AverageStreak (20096 * DAY_MS))
   \<and> (9 / 2 :: rat) =
       fdiv (of_int (Math_round (fmul
          (if filter (\<lambda>h. categoryOf h = ''A'') [mkHabitIn 1 ''B'', mkHabitIn 2 ''A'', mkHabitIn 3 ''A''] \<noteq> []
           then fdiv (of_int (sum_list (map (currentStreakOf [(1, \<lparr>current_streak = 2, longest_streak = 2\<rparr>),
        (2, \<lparr>current_streak = 5, longest_streak = 5\<rparr>),
        (3, \<lparr>current_streak = 4, longest_streak = 4\<rparr>)])
                        (filter (\<lambda>h. categoryOf h = ''A'') [mkHabitIn 1 ''B'', mkHabitIn 2 ''A'', mkHabitIn 3 ''A'']))))
                     (of_nat (length (filter (\<lambda>h. categoryOf h = ''A'') [mkHabitIn 1 ''B'', mkHabitIn 2 ''A'', mkHabitIn 3 ''A''])))
           else 0) 10))) 10"
proof -
  note T = C8_sorted_by_metric_ties_by_first_appearance [of
      "[mkHabitIn 1 ''B'', mkHabitIn 2 ''A'', mkHabitIn 3 ''A'']" Map.empty
      "[(1, \<lparr>current_streak = 2, longest_streak = 2\<rparr>),
        (2, \<lparr>current_streak = 5, longest_streak = 5\<rparr>),
        (3, \<lparr>current_streak = 4, longest_streak = 4\<rparr>)]"
      AverageStreak "20096 * DAY_MS"
      "\<lparr>cd_category = ''A'', cd_value = 9 / 2, cd_count = 2, cd_completionRate = 0,
       cd_averageStreak = 9 / 2\<rparr>"]
  have e: "\<lparr>cd_category = ''A'', cd_value = 9 / 2, cd_count = 2, cd_completionRate = 0,
       cd_averageStreak = 9 / 2\<rparr>
     \<in> set (categoryChartData [mkHabitIn 1 ''B'', mkHabitIn 2 ''A'', mkHabitIn 3 ''A''] Map.empty
       [(1, \<lparr>current_streak = 2, longest_streak = 2\<rparr>),
        (2, \<lparr>current_streak = 5, longest_streak = 5\<rparr>),
        (3, \<lparr>current_streak = 4, longest_streak = 4\<rparr>)]
       AverageStreak (20096 * DAY_MS))"
    by code_simp
  have r: "cd_value \<lparr>cd_category = ''A'', cd_value = 9 / 2, cd_count = 2, cd_completionRate = 0,
       cd_averageStreak = 9 / 2\<rparr> = 9 / 2"
    "cd_category \<lparr>cd_category = ''A'', cd_value = 9 / 2, cd_count = 2, cd_completionRate = 0,
       cd_averageStreak = 9 / 2\<rparr> = ''A''"
    by simp_all
  from T e have "cd_value \<lparr>cd_category = ''A'', cd_value = 9 / 2, cd_count = 2, cd_completionRate = 0,
       cd_averageStreak = 9 / 2\<rparr> =
          (let hs = filter (\<lambda>h. categoryOf h = cd_category \<lparr>cd_category = ''A'', cd_value = 9 / 2, cd_count = 2, cd_completionRate = 0,
       cd_averageStreak = 9 / 2\<rparr>) [mkHabitIn 1 ''B'', mkHabitIn 2 ''A'', mkHabitIn 3 ''A'']
            in case AverageStreak of
                 Count \<Rightarrow> of_nat (length hs)
               | CompletionRate \<Rightarrow>
                   of_int (Math_round
                     (if 0 < sum_list (map (daysSinceCreation (20096 * DAY_MS)) hs)
                      then fmul (fdiv (of_int (sum_list (map (\<lambda>h. int (length (completionsOf Map.empty h))) hs)))
                                      (of_int (sum_list (map (daysSinceCreation (20096 * DAY_MS)) hs)))) 100
                      else 0))
               | AverageStreak \<Rightarrow>
                   fdiv (of_int (Math_round (fmul
                     (if hs \<noteq> []
                      then fdiv (of_int (sum_list (map (currentStreakOf [(1, \<lparr>current_streak = 2, longest_streak = 2\<rparr>),
        (2, \<lparr>current_streak = 5, longest_streak = 5\<rparr>),
        (3, \<lparr>current_streak = 4, longest_streak = 4\<rparr>)]) hs))) (of_nat (length hs))
                      else 0) 10))) 10)"
    by blast
  then have v: "(9 / 2 :: rat) =
       fdiv (of_int (Math_round (fmul
          (if filter (\<lambda>h. categoryOf h = ''A'') [mkHabitIn 1 ''B'', mkHabitIn 2 ''A'', mkHabitIn 3 ''A''] \<noteq> []
           then fdiv (of_int (sum_list (map (currentStreakOf [(1, \<lparr>current_streak = 2, longest_streak = 2\<rparr>),
        (2, \<lparr>current_streak = 5, longest_streak = 5\<rparr>),
        (3, \<lparr>current_streak = 4, longest_streak = 4\<rparr>)])
                        (filter (\<lambda>h. categoryOf h = ''A'') [mkHabitIn 1 ''B'', mkHabitIn 2 ''A'', mkHabitIn 3 ''A'']))))
                     (of_nat (length (filter (\<lambda>h. categoryOf h = ''A'') [mkHabitIn 1 ''B'', mkHabitIn 2 ''A'', mkHabitIn 3 ''A''])))
           else 0) 10))) 10"
    unfolding r metric.case Let_def .
  show ?thesis
    by (intro conjI) (fact e v)+
qed

text \<open>Claim C8, as stated, fails. Two habits, the first in category "B" and the second in
  category "A", sorted by count: both counts are 1 and "B" stays before "A".\<close>

theorem C8_tie_order_counterexample:
  "map cd_category (categoryChartData [mkHabitIn 1 ''B'', mkHabitIn 2 ''A''] Map.empty [] Count
       (20096 * DAY_MS)) = [''B'', ''A'']
   \<and> map cd_value (categoryChartData [mkHabitIn 1 ''B'', mkHabitIn 2 ''A''] Map.empty [] Count
       (20096 * DAY_MS)) = [1, 1]"
  by code_simp

end
